theory Spec2Isabelle
  imports
    Complex_Main
    "HOL-Library.FSet"
    "HOL-Library.Sublist"
    "HOL-Library.Char_ord"
    "HOL-Library.List_Lexorder"
    "HOL-Library.Log_Nat"
begin

section \<open>Data model of check\_similar\_pr.py\<close>

text \<open>
  The script compares one pull request with the recently updated ones. Text is a
  \<^typ>\<open>string\<close> of code points below 256, a Python \<open>set\<close> is a finite set
  (\<^typ>\<open>'a fset\<close>), a Python \<open>float\<close> is the rational that the binary64 number
  denotes, and every exception the source can raise is a value of \<open>error\<close>.
\<close>

datatype error = ZeroDivisionError | OverflowError | RequestException

text \<open>The dictionaries \<open>current\<close> and \<open>cand\<close> that \<open>main\<close> builds (lines 116-123, 135-142).\<close>

record pull_request =
  number :: int
  title :: string
  body :: string
  files :: "string list"
  url :: string
  author :: string

section \<open>Tokenizer\<close>

text \<open>\<open>str.lower\<close> on one code point below 256: A-Z and the Latin-1 capitals move up by 32.\<close>

definition lower_char :: "char \<Rightarrow> char" where
  "lower_char c =
     (let n = (of_char c :: nat)
      in if 65 \<le> n \<and> n \<le> 90 then char_of (n + 32)
         else if 192 \<le> n \<and> n \<le> 222 then (if n = 215 then c else char_of (n + 32))
         else c)"

text \<open>The character class \<open>[a-z0-9_]\<close>.\<close>

definition is_token_char :: "char \<Rightarrow> bool" where
  "is_token_char c =
     (let n = (of_char c :: nat)
      in if 97 \<le> n \<and> n \<le> 122 then True
         else if 48 \<le> n \<and> n \<le> 57 then True
         else n = 95)"

text \<open>
  \<open>re.findall(r"[a-z0-9_]+", text)\<close>: the maximal runs of token characters, left to
  right. The first argument is the run being read.
\<close>

fun findall :: "string \<Rightarrow> string \<Rightarrow> string list" where
  "findall cur [] = (if cur = [] then [] else [cur])"
| "findall cur (c # cs) =
     (if is_token_char c then findall (cur @ [c]) cs
      else if cur = [] then findall [] cs
      else cur # findall [] cs)"

text \<open>\<open>tokenize\<close> (lines 43-47); \<open>None\<close> is Python's \<open>None\<close>, which \<open>text or ""\<close> replaces.\<close>

definition tokenize :: "string option \<Rightarrow> string fset" where
  "tokenize text =
     (let text = map lower_char (case text of None \<Rightarrow> [] | Some s \<Rightarrow> s);
          tokens = findall [] text
      in fset_of_list tokens)"

section \<open>Floating point\<close>

text \<open>
  A Python \<open>float\<close> is an IEEE 754 binary64 number. The model keeps a finite float as the
  rational it denotes, and rounds the exact result of every literal and every arithmetic
  operation to the nearest float, ties to the even significand: 53 significant bits, and
  multiples of \<open>2^-1074\<close> below \<open>2^-1022\<close>. Every float of the scorer lies in \<open>[0,1]\<close>
  (proved below), so infinities and NaN do not occur.
\<close>

text \<open>Rounding a rational to the nearest integer, ties to even.\<close>

definition round_half_even :: "rat \<Rightarrow> int" where
  "round_half_even y =
     (let f = \<lfloor>y\<rfloor>; d = y - of_int f
      in if d < 1 / 2 then f
         else if 1 / 2 < d then f + 1
         else if even f then f else f + 1)"

text \<open>The binary exponent of a positive rational: \<open>2^e \<le> q < 2^(e+1)\<close>.\<close>

definition floor_log2 :: "rat \<Rightarrow> int" where
  "floor_log2 q =
     (let (a, b) = quotient_of q; d = bitlen a - bitlen b
      in if 2 powi d \<le> q then d else d - 1)"

text \<open>The float nearest to a rational: a multiple of the spacing \<open>2^k\<close> of floats around it.\<close>

definition py_float :: "rat \<Rightarrow> rat" where
  "py_float q =
     (if q = 0 then 0
      else let k = max (floor_log2 \<bar>q\<bar> - 52) (- 1074)
           in of_int (round_half_even (q / 2 powi k)) * 2 powi k)"

text \<open>Float multiplication and addition: the exact result, rounded.\<close>

definition fmul :: "rat \<Rightarrow> rat \<Rightarrow> rat" where
  "fmul x y = py_float (x * y)"

definition fadd :: "rat \<Rightarrow> rat \<Rightarrow> rat" where
  "fadd x y = py_float (x + y)"

section \<open>Similarity scorer\<close>

text \<open>
  Python's \<open>/\<close> on two lengths: it raises on a zero divisor, and otherwise gives the float
  nearest to the exact quotient, or raises when that is too large for a float.
\<close>

definition truediv :: "nat \<Rightarrow> nat \<Rightarrow> error + rat" where
  "truediv a b =
     (if b = 0 then Inl ZeroDivisionError
      else let q = py_float (of_nat a / of_nat b)
           in if 2 ^ 1024 \<le> q then Inl OverflowError else Inr q)"

text \<open>\<open>jaccard\<close> (lines 50-55).\<close>

definition jaccard :: "'a fset \<Rightarrow> 'a fset \<Rightarrow> error + rat" where
  "jaccard s1 s2 =
     (if s1 = {||} \<and> s2 = {||} then Inr 0
      else let inter = fcard (s1 |\<inter>| s2);
               union = fcard (s1 |\<union>| s2)
           in if union \<noteq> 0 then truediv inter union else Inr 0)"

text \<open>The f-string \<open>f"{pr['title']} {pr['body']}"\<close> (lines 67-68).\<close>

definition pr_text :: "pull_request \<Rightarrow> string" where
  "pr_text pr = title pr @ '' '' @ body pr"

text \<open>
  \<open>compute_similarity\<close> (lines 58-76): the triple \<open>(score, file_overlap, text_sim)\<close>. The
  literals \<open>0.6\<close> and \<open>0.4\<close> are the floats nearest to 6/10 and 4/10, and line 75 rounds
  after each of its three operations.
\<close>

definition compute_similarity :: "pull_request \<Rightarrow> pull_request \<Rightarrow> error + (rat \<times> rat \<times> rat)" where
  "compute_similarity current candidate =
     (let cur_files = fset_of_list (files current);
          cand_files = fset_of_list (files candidate)
      in case (if cur_files = {||} then Inr 0
               else truediv (fcard (cur_files |\<inter>| cand_files)) (fcard cur_files)) of
           Inl e \<Rightarrow> Inl e
         | Inr file_overlap \<Rightarrow>
             (let cur_tokens = tokenize (Some (pr_text current));
                  cand_tokens = tokenize (Some (pr_text candidate))
              in case jaccard cur_tokens cand_tokens of
                   Inl e \<Rightarrow> Inl e
                 | Inr text_sim \<Rightarrow>
                     Inr (fadd (fmul (py_float (6 / 10)) file_overlap)
                               (fmul (py_float (4 / 10)) text_sim),
                          file_overlap, text_sim)))"

section \<open>Candidate gate and ranking\<close>

text \<open>An entry of \<open>candidates\<close> (line 145): \<open>(score, file_overlap, text_sim, cand)\<close>.\<close>

type_synonym scored = "rat \<times> rat \<times> rat \<times> pull_request"

text \<open>The threshold test of line 144, against the float literals \<open>0.5\<close> and \<open>0.4\<close>.\<close>

fun gate :: "scored \<Rightarrow> bool" where
  "gate (score, file_overlap, text_sim, cand) =
     (score \<ge> py_float (5 / 10) \<and> file_overlap \<ge> py_float (4 / 10))"

text \<open>
  \<open>candidates.sort(key=lambda x: x[0], reverse=True)\<close> (line 152): Python's sort is stable,
  also with \<open>reverse=True\<close>, so it is the stable ascending sort on the negated score.
\<close>

definition sort_by_score :: "scored list \<Rightarrow> scored list" where
  "sort_by_score candidates = sort_key (\<lambda>x. - fst x) candidates"

text \<open>Lines 152-153: sort, then \<open>candidates[:3]\<close>.\<close>

definition top3 :: "scored list \<Rightarrow> scored list" where
  "top3 candidates = take 3 (sort_by_score candidates)"

section \<open>The remote services\<close>

text \<open>The fields that the script reads from a pull request object of the GitHub API.\<close>

record pr_json =
  pj_number :: int
  pj_title :: string
  pj_body :: "string option"
  pj_state :: string
  pj_updated_at :: string
  pj_html_url :: string
  pj_login :: string

text \<open>
  The pieces of an f-string or of the arguments of \<open>print\<close>, before they are rendered:
  a string, an integer, and a float under the format \<open>.2f\<close>.
\<close>

datatype piece = Str string | Num int | Fixed2 rat

text \<open>
  What the run reads from outside: the three \<open>gh_get\<close> endpoints (an \<open>Inl\<close> is the exception
  of \<open>raise_for_status\<close> or of the transport), the environment variables, the cutoff string
  \<open>since\<close> computed from the clock (line 80), and \<open>requests.post\<close> on the webhook, which
  answers with a status code and a body or raises.
\<close>

record world =
  gh_pull :: "int \<Rightarrow> error + pr_json"
  gh_pull_files :: "int \<Rightarrow> nat \<Rightarrow> error + string list"
  gh_pulls :: "nat \<Rightarrow> error + pr_json list"
  env_pr_number :: int
  env_slack_webhook :: "string option"
  clock_since :: string
  slack_send :: "string \<Rightarrow> piece list \<Rightarrow> error + (int \<times> string)"

text \<open>
  \<open>get_pr_files\<close> (lines 31-40): the loop over pages, \<open>None\<close> when it never meets an
  empty page.
\<close>

partial_function (option) get_pr_files_from ::
  "world \<Rightarrow> int \<Rightarrow> string list \<Rightarrow> nat \<Rightarrow> (error + string list) option" where
  "get_pr_files_from w pr_num fs page =
     (case gh_pull_files w pr_num page of
        Inl e \<Rightarrow> Some (Inl e)
      | Inr chunk \<Rightarrow>
          if chunk = [] then Some (Inr fs)
          else get_pr_files_from w pr_num (fs @ chunk) (page + 1))"

declare get_pr_files_from.simps [code]

definition get_pr_files :: "world \<Rightarrow> int \<Rightarrow> (error + string list) option" where
  "get_pr_files w pr_num = get_pr_files_from w pr_num [] 1"

text \<open>
  The \<open>for\<close> loop of \<open>get_recent_prs\<close> over one page (lines 95-99): it either executes
  \<open>return prs\<close> or falls through to \<open>page += 1\<close>.
\<close>

datatype 'a loop_exit = Returned 'a | Fell_through 'a

fun scan_page :: "string \<Rightarrow> pr_json list \<Rightarrow> pr_json list \<Rightarrow> pr_json list loop_exit" where
  "scan_page since prs [] = Fell_through prs"
| "scan_page since prs (pr # res) =
     (if pj_updated_at pr < since then Returned prs
      else scan_page since (prs @ [pr]) res)"

text \<open>\<open>get_recent_prs\<close> (lines 79-102); strings compare lexicographically, as in Python.\<close>

partial_function (option) get_recent_prs_from ::
  "world \<Rightarrow> string \<Rightarrow> pr_json list \<Rightarrow> nat \<Rightarrow> (error + pr_json list) option" where
  "get_recent_prs_from w since prs page =
     (case gh_pulls w page of
        Inl e \<Rightarrow> Some (Inl e)
      | Inr res \<Rightarrow>
          if res = [] then Some (Inr prs)
          else (case scan_page since prs res of
                  Returned prs' \<Rightarrow> Some (Inr prs')
                | Fell_through prs' \<Rightarrow> get_recent_prs_from w since prs' (page + 1)))"

declare get_recent_prs_from.simps [code]

definition get_recent_prs :: "world \<Rightarrow> (error + pr_json list) option" where
  "get_recent_prs w = get_recent_prs_from w (clock_since w) [] 1"

section \<open>Output\<close>

text \<open>What the run does to the outside: a \<open>print\<close>, or a call of \<open>requests.post\<close>.\<close>

datatype event = Print "piece list" | Post string "piece list"

text \<open>\<open>notify_slack\<close> (lines 105-110). An empty webhook string is as false as \<open>None\<close>.\<close>

definition notify_slack :: "world \<Rightarrow> piece list \<Rightarrow> event list \<times> (error + unit)" where
  "notify_slack w message =
     (case env_slack_webhook w of
        None \<Rightarrow> ([Print [Str ''SLACK_WEBHOOK_URL not set, skipping Slack notification'']], Inr ())
      | Some slack_webhook \<Rightarrow>
          if slack_webhook = []
          then ([Print [Str ''SLACK_WEBHOOK_URL not set, skipping Slack notification'']], Inr ())
          else (case slack_send w slack_webhook message of
                  Inl e \<Rightarrow> ([Post slack_webhook message], Inl e)
                | Inr (status_code, text) \<Rightarrow>
                    ([Post slack_webhook message,
                      Print [Str ''Slack response:'', Num status_code, Str (take 200 text)]],
                     Inr ())))"

section \<open>The run\<close>

text \<open>The record that \<open>main\<close> builds from an API object and a file list (lines 116-123, 135-142).\<close>

definition make_record :: "pr_json \<Rightarrow> string list \<Rightarrow> pull_request" where
  "make_record pr fs =
     \<lparr>number = pj_number pr,
      title = pj_title pr,
      body = (case pj_body pr of None \<Rightarrow> [] | Some b \<Rightarrow> b),
      files = fs,
      url = pj_html_url pr,
      author = pj_login pr\<rparr>"

text \<open>
  The loop of lines 128-145 over \<open>recent_prs\<close>, with the list \<open>candidates\<close> built so far.
  \<open>None\<close>: a file listing never ends; \<open>Inl\<close>: a request raised.
\<close>

fun collect :: "world \<Rightarrow> pull_request \<Rightarrow> pr_json list \<Rightarrow> scored list \<Rightarrow> (error + scored list) option" where
  "collect w current [] candidates = Some (Inr candidates)"
| "collect w current (pr # recent_prs) candidates =
     (if pj_number pr = number current then collect w current recent_prs candidates
      else if pj_state pr \<notin> set [''open'', ''closed''] then collect w current recent_prs candidates
      else (case get_pr_files w (pj_number pr) of
              None \<Rightarrow> None
            | Some (Inl e) \<Rightarrow> Some (Inl e)
            | Some (Inr fs) \<Rightarrow>
                (let cand = make_record pr fs
                 in case compute_similarity current cand of
                      Inl e \<Rightarrow> Some (Inl e)
                    | Inr (score, file_overlap, text_sim) \<Rightarrow>
                        if gate (score, file_overlap, text_sim, cand)
                        then collect w current recent_prs (candidates @ [(score, file_overlap, text_sim, cand)])
                        else collect w current recent_prs candidates)))"

text \<open>The message of lines 155-165, and \<open>"\n".join(lines)\<close>.\<close>

fun result_line :: "scored \<Rightarrow> piece list" where
  "result_line (score, file_overlap, text_sim, cand) =
     [Str ''- <'', Str (url cand), Str ''|#'', Num (number cand), Str '' - '', Str (title cand),
      Str ''> '', Str ''(author: '', Str (author cand), Str '', score='', Fixed2 score,
      Str '', files='', Fixed2 file_overlap, Str '', text='', Fixed2 text_sim, Str '')'']"

definition message_lines :: "pull_request \<Rightarrow> scored list \<Rightarrow> piece list list" where
  "message_lines current top_cands =
     [[Str '':mag: *Possible duplicate / overlapping PR detected*''],
      [Str ''*Current PR:* <'', Str (url current), Str ''|#'', Num (number current), Str '' - '',
       Str (title current), Str ''> (author: '', Str (author current), Str '')''],
      [Str []],
      [Str ''*Similar PRs within last 7 days:*'']]
     @ map result_line top_cands"

fun join_lines :: "piece list list \<Rightarrow> piece list" where
  "join_lines [] = []"
| "join_lines [l] = l"
| "join_lines (l # ls) = l @ [Str [CHR 0x0A]] @ join_lines ls"

text \<open>
  \<open>main\<close> (lines 113-167): the events of the run in order, and how it ends. \<open>None\<close>: the run
  never ends. A request that raises ends the run with that error.
\<close>

definition main :: "world \<Rightarrow> (event list \<times> (error + unit)) option" where
  "main w =
     (case gh_pull w (env_pr_number w) of
        Inl e \<Rightarrow> Some ([], Inl e)
      | Inr current_pr \<Rightarrow>
          (case get_pr_files w (env_pr_number w) of
             None \<Rightarrow> None
           | Some (Inl e) \<Rightarrow> Some ([], Inl e)
           | Some (Inr current_files) \<Rightarrow>
               (let current = make_record current_pr current_files
                in case get_recent_prs w of
                     None \<Rightarrow> None
                   | Some (Inl e) \<Rightarrow> Some ([], Inl e)
                   | Some (Inr recent_prs) \<Rightarrow>
                       (case collect w current recent_prs [] of
                          None \<Rightarrow> None
                        | Some (Inl e) \<Rightarrow> Some ([], Inl e)
                        | Some (Inr candidates) \<Rightarrow>
                            if candidates = []
                            then Some ([Print [Str ''No similar PRs found.'']], Inr ())
                            else Some (notify_slack w
                                         (join_lines (message_lines current (top3 candidates))))))))"

section \<open>Sample records\<close>

definition pr_login :: pull_request where
  "pr_login = \<lparr>number = 1, title = ''Fix login bug'', body = '''',
                files = [''a.py'', ''b.py''], url = ''u1'', author = ''ann''\<rparr>"

definition pr_login_again :: pull_request where
  "pr_login_again = \<lparr>number = 2, title = ''Fix Login'', body = ''bug'',
                files = [''b.py'', ''a.py'', ''c.py'', ''a.py''], url = ''u2'', author = ''bob''\<rparr>"

definition pr_blank :: pull_request where
  "pr_blank = \<lparr>number = 3, title = '''', body = '''', files = [], url = ''u3'', author = ''cy''\<rparr>"

text \<open>
  Two records with three of the current one's four files in common, and one common token
  among eight.
\<close>

definition pr_four :: pull_request where
  "pr_four = \<lparr>number = 5, title = ''alpha'', body = ''beta gamma delta'',
               files = [''a.py'', ''b.py'', ''c.py'', ''d.py''], url = ''u5'', author = ''eve''\<rparr>"

definition pr_three_of_four :: pull_request where
  "pr_three_of_four = \<lparr>number = 6, title = ''alpha'', body = ''one two three four'',
               files = [''a.py'', ''b.py'', ''c.py'', ''x.py''], url = ''u6'', author = ''fay''\<rparr>"

section \<open>Sample repositories\<close>

definition pj_current :: pr_json where
  "pj_current = \<lparr>pj_number = 1, pj_title = ''Fix login bug'', pj_body = None, pj_state = ''open'',
                  pj_updated_at = ''2024-05-09T10:00:00Z'', pj_html_url = ''u1'', pj_login = ''ann''\<rparr>"

definition pj_twin :: pr_json where
  "pj_twin = \<lparr>pj_number = 2, pj_title = ''Fix Login'', pj_body = Some ''bug'', pj_state = ''closed'',
               pj_updated_at = ''2024-05-08T09:30:00Z'', pj_html_url = ''u2'', pj_login = ''bob''\<rparr>"

definition pj_stale :: pr_json where
  "pj_stale = \<lparr>pj_number = 3, pj_title = ''Update docs'', pj_body = Some ''typos'', pj_state = ''closed'',
                pj_updated_at = ''2024-05-01T10:00:00Z'', pj_html_url = ''u3'', pj_login = ''cy''\<rparr>"

definition pj_other :: pr_json where
  "pj_other = \<lparr>pj_number = 4, pj_title = ''Bump deps'', pj_body = Some '''', pj_state = ''open'',
                pj_updated_at = ''2024-05-09T08:00:00Z'', pj_html_url = ''u4'', pj_login = ''dee''\<rparr>"

text \<open>A listing in descending order of update time over two pages, and one out of order.\<close>

definition pages_sorted :: "nat \<Rightarrow> pr_json list" where
  "pages_sorted page =
     (if page = 1 then [pj_current, pj_other]
      else if page = 2 then [pj_twin, pj_stale]
      else [])"

definition pages_unsorted :: "nat \<Rightarrow> pr_json list" where
  "pages_unsorted page = (if page = 1 then [pj_current, pj_stale, pj_twin] else [])"

text \<open>
  A repository with the sorted listing. Pull request 4 touches \<open>z.py\<close>, the others
  \<open>a.py\<close> and \<open>b.py\<close>. The webhook is set and answers 500.
\<close>

definition w_sorted :: world where
  "w_sorted =
     \<lparr>gh_pull = (\<lambda>n. if n = 1 then Inr pj_current else Inl RequestException),
      gh_pull_files = (\<lambda>n page. if page = 1 then (if n = 4 then Inr [''z.py''] else Inr [''a.py'', ''b.py''])
                                 else Inr []),
      gh_pulls = (\<lambda>page. Inr (pages_sorted page)),
      env_pr_number = 1,
      env_slack_webhook = Some ''https://hooks.example/T0'',
      clock_since = ''2024-05-02T12:00:00.250000Z'',
      slack_send = (\<lambda>hook message. Inr (500, ''down''))\<rparr>"

text \<open>The same repository with the listing out of order.\<close>

definition w_unsorted :: world where
  "w_unsorted = w_sorted \<lparr>gh_pulls := (\<lambda>page. Inr (pages_unsorted page))\<rparr>"

text \<open>A webhook that cannot be reached: \<open>requests.post\<close> raises.\<close>

definition w_unreachable :: world where
  "w_unreachable = w_sorted \<lparr>slack_send := (\<lambda>hook message. Inl RequestException)\<rparr>"

text \<open>No webhook configured, and only an unrelated pull request besides the current one.\<close>

definition w_quiet :: world where
  "w_quiet = w_sorted
     \<lparr>gh_pulls := (\<lambda>page. if page = 1 then Inr [pj_current, pj_other] else Inr []),
      env_slack_webhook := None\<rparr>"

text \<open>The sorted repository, where asking for the files of pull request 1 raises.\<close>

definition w_guarded :: world where
  "w_guarded = w_sorted
     \<lparr>gh_pull_files := (\<lambda>n page. if n = 1 then Inl RequestException
                                  else if page = 1 then (if n = 4 then Inr [''z.py''] else Inr [''a.py'', ''b.py''])
                                  else Inr [])\<rparr>"

text \<open>Scored candidates, four of them with the same score.\<close>

definition scored_sample :: "scored list" where
  "scored_sample =
     [(9 / 10, 1, 3 / 4, pr_login),
      (1 / 2, 39 / 100, 133 / 200, pr_blank),
      (9 / 10, 1, 3 / 4, pr_login_again),
      (24 / 25, 1, 9 / 10, pr_blank),
      (9 / 10, 1, 3 / 4, pr_blank),
      (9 / 10, 1, 3 / 4, pr_login)]"

section \<open>Properties of the rounding\<close>

lemma round_half_even_near:
  "of_int (round_half_even y) - y \<le> 1 / 2 \<and> y - of_int (round_half_even y) \<le> 1 / 2"
proof -
  have "of_int \<lfloor>y\<rfloor> \<le> y" "y < of_int \<lfloor>y\<rfloor> + 1"
    by linarith+
  then show ?thesis
    by (auto simp: round_half_even_def Let_def; linarith)
qed

lemma round_half_even_le: "y \<le> of_int n \<Longrightarrow> round_half_even y \<le> n"
proof -
  assume a: "y \<le> of_int n"
  then have f: "\<lfloor>y\<rfloor> \<le> n" by (simp add: floor_le_iff)
  have "\<lfloor>y\<rfloor> + 1 \<le> n" if "0 < y - of_int \<lfloor>y\<rfloor>"
  proof -
    from that a have "(of_int \<lfloor>y\<rfloor> :: rat) < of_int n" by linarith
    then show ?thesis by simp
  qed
  with f show ?thesis
    by (auto simp: round_half_even_def Let_def)
qed

lemma round_half_even_nonneg: "0 \<le> y \<Longrightarrow> 0 \<le> round_half_even y"
  by (auto simp: round_half_even_def Let_def)

text \<open>\<open>floor_log2\<close> is the binary exponent.\<close>

lemma floor_log2_bounds:
  assumes "0 < q"
  shows "2 powi floor_log2 q \<le> q" and "q < 2 powi (floor_log2 q + 1)"
proof -
  obtain a b where ab: "quotient_of q = (a, b)" by (cases "quotient_of q")
  then have b: "0 < b" and q: "q = of_int a / of_int b"
    by (simp_all add: quotient_of_denom_pos quotient_of_div)
  with assms have a: "0 < a"
    by (simp add: zero_less_divide_iff)
  define d where "d = bitlen a - bitlen b"
  have la: "1 \<le> bitlen a" and lb: "1 \<le> bitlen b"
    using a b by (simp_all add: bitlen_alt_def)
  have alo: "(2::rat) powi (bitlen a - 1) \<le> of_int a"
  proof -
    have "(2::int) ^ nat (bitlen a - 1) \<le> a" using bitlen_bounds [OF a] ..
    then have "(of_int ((2::int) ^ nat (bitlen a - 1)) :: rat) \<le> of_int a"
      by (simp only: of_int_le_iff)
    then show ?thesis using la by (simp add: power_int_nonneg_exp)
  qed
  have ahi: "of_int a < (2::rat) powi bitlen a"
  proof -
    have "a < (2::int) ^ nat (bitlen a)" using bitlen_bounds [OF a] ..
    then have "(of_int a :: rat) < of_int ((2::int) ^ nat (bitlen a))"
      by (simp only: of_int_less_iff)
    then show ?thesis using la by (simp add: power_int_nonneg_exp)
  qed
  have blo: "(2::rat) powi (bitlen b - 1) \<le> of_int b"
  proof -
    have "(2::int) ^ nat (bitlen b - 1) \<le> b" using bitlen_bounds [OF b] ..
    then have "(of_int ((2::int) ^ nat (bitlen b - 1)) :: rat) \<le> of_int b"
      by (simp only: of_int_le_iff)
    then show ?thesis using lb by (simp add: power_int_nonneg_exp)
  qed
  have bhi: "of_int b \<le> (2::rat) powi bitlen b"
  proof -
    have "b < (2::int) ^ nat (bitlen b)" using bitlen_bounds [OF b] ..
    then have "(of_int b :: rat) < of_int ((2::int) ^ nat (bitlen b))"
      by (simp only: of_int_less_iff)
    then show ?thesis using lb by (simp add: power_int_nonneg_exp)
  qed
  have lo: "(2::rat) powi (d - 1) \<le> q"
  proof -
    have "(2::rat) powi (d - 1) = 2 powi (bitlen a - 1) / 2 powi bitlen b"
      by (simp add: d_def flip: power_int_diff) (simp add: algebra_simps)
    also have "\<dots> \<le> of_int a / of_int b"
      using alo bhi a b by (intro frac_le) simp_all
    finally show ?thesis by (simp add: q)
  qed
  have hi: "q < (2::rat) powi (d + 1)"
  proof -
    have "of_int a / of_int b < (2::rat) powi bitlen a / 2 powi (bitlen b - 1)"
      using ahi blo a b by (intro frac_less) simp_all
    also have "\<dots> = 2 powi (d + 1)"
      by (simp add: d_def flip: power_int_diff) (simp add: algebra_simps)
    finally show ?thesis by (simp add: q)
  qed
  have e: "floor_log2 q = (if 2 powi d \<le> q then d else d - 1)"
    by (simp add: floor_log2_def ab d_def)
  show "2 powi floor_log2 q \<le> q"
    using lo by (simp add: e)
  show "q < 2 powi (floor_log2 q + 1)"
    using hi by (auto simp: e not_le)
qed

lemma floor_log2_le:
  assumes "0 < q" "q < 2 powi (n + 1)"
  shows "floor_log2 q \<le> n"
proof (rule ccontr)
  assume "\<not> floor_log2 q \<le> n"
  then have "n + 1 \<le> floor_log2 q" by simp
  then have "(2::rat) powi (n + 1) \<le> 2 powi floor_log2 q"
    by (intro power_int_increasing) simp_all
  with floor_log2_bounds(1) [OF assms(1)] assms(2) show False by simp
qed

lemma py_float_nonneg: "0 \<le> q \<Longrightarrow> 0 \<le> py_float q"
  by (auto simp: py_float_def Let_def intro!: mult_nonneg_nonneg round_half_even_nonneg)

text \<open>Rounding does not step over a float: \<open>d\<close> is a multiple of the spacing below \<open>2^(n+1)\<close>.\<close>

lemma py_float_le:
  assumes "0 < q" "q \<le> d" "d < 2 powi (n + 1)"
    and "d = of_int m * 2 powi max (n - 52) (- 1074)"
  shows "py_float q \<le> d"
proof -
  define k where "k = max (floor_log2 \<bar>q\<bar> - 52) (- 1074)"
  define K where "K = max (n - 52) (- 1074)"
  have "floor_log2 q \<le> n"
    using assms(1-3) by (intro floor_log2_le) simp_all
  then have kK: "k \<le> K"
    using assms(1) by (simp add: k_def K_def)
  have pk: "(0::rat) < 2 powi k" by simp
  have "(2::rat) powi K = 2 powi (K - k) * 2 powi k"
    by (simp flip: power_int_add)
  also have "(2::rat) powi (K - k) = of_int (2 ^ nat (K - k))"
    using kK by (simp add: power_int_nonneg_exp)
  finally have d: "d = of_int (m * 2 ^ nat (K - k)) * 2 powi k"
    using assms(4) by (simp add: K_def)
  have "q / 2 powi k \<le> of_int (m * 2 ^ nat (K - k))"
    using assms(2) pk unfolding d by (simp add: divide_le_eq)
  then have "round_half_even (q / 2 powi k) \<le> m * 2 ^ nat (K - k)"
    by (rule round_half_even_le)
  then have "(of_int (round_half_even (q / 2 powi k)) :: rat) \<le> of_int (m * 2 ^ nat (K - k))"
    by (simp only: of_int_le_iff)
  then have "of_int (round_half_even (q / 2 powi k)) * 2 powi k \<le> of_int (m * 2 ^ nat (K - k)) * (2::rat) powi k"
    using pk by (intro mult_right_mono) simp_all
  then show ?thesis
    using assms(1) unfolding d by (simp add: py_float_def Let_def k_def)
qed

lemma py_float_le_1: "0 \<le> q \<Longrightarrow> q \<le> 1 \<Longrightarrow> py_float q \<le> 1"
proof (cases "q = 0")
  case True
  then show ?thesis by (simp add: py_float_def)
next
  case False
  assume "0 \<le> q" "q \<le> 1"
  with False show ?thesis
    by (intro py_float_le [where n = 0 and m = "2 ^ 52"]) simp_all
qed

text \<open>In \<open>[0,1]\<close> a rounding moves a number by half a spacing at most.\<close>

lemma py_float_near:
  assumes "0 \<le> q" "q \<le> 1"
  shows "\<bar>py_float q - q\<bar> \<le> 1 / 2 ^ 53"
proof (cases "q = 0")
  case True
  then show ?thesis by (simp add: py_float_def)
next
  case False
  with assms have pos: "0 < q" by simp
  define k where "k = max (floor_log2 \<bar>q\<bar> - 52) (- 1074)"
  have "floor_log2 q \<le> 0"
    using pos assms(2) by (intro floor_log2_le) simp_all
  then have k: "k \<le> - 52"
    using pos by (simp add: k_def)
  have pk: "(0::rat) < 2 powi k" by simp
  have "(2::rat) powi k \<le> 2 powi (- 52)"
    using k by (intro power_int_increasing) simp_all
  then have q52: "(2::rat) powi k \<le> 1 / 2 ^ 52"
    by (simp add: power_int_minus_divide)
  define r where "r = (of_int (round_half_even (q / 2 powi k)) :: rat)"
  have "r - q / 2 powi k \<le> 1 / 2 \<and> q / 2 powi k - r \<le> 1 / 2"
    unfolding r_def by (rule round_half_even_near)
  then have "\<bar>r - q / 2 powi k\<bar> \<le> 1 / 2" by linarith
  then have "\<bar>r - q / 2 powi k\<bar> * 2 powi k \<le> 1 / 2 * 2 powi k"
    using pk by (intro mult_right_mono) simp_all
  moreover have "\<bar>r - q / 2 powi k\<bar> * 2 powi k = \<bar>r * 2 powi k - q\<bar>"
  proof -
    have "\<bar>r - q / 2 powi k\<bar> * 2 powi k = \<bar>(r - q / 2 powi k) * 2 powi k\<bar>"
      using pk by (simp add: abs_mult)
    also have "(r - q / 2 powi k) * 2 powi k = r * 2 powi k - q"
      using pk by (simp add: algebra_simps)
    finally show ?thesis .
  qed
  ultimately have "\<bar>r * 2 powi k - q\<bar> \<le> 1 / 2 * (1 / 2 ^ 52)"
    using q52 by linarith
  moreover have "py_float q = r * 2 powi k"
    using False by (simp add: py_float_def Let_def k_def r_def)
  ultimately show ?thesis by simp
qed

text \<open>The float literals of the script.\<close>

lemma float_0_6: "py_float (6 / 10) = 5404319552844595 / 9007199254740992"
  by code_simp

lemma float_0_4: "py_float (4 / 10) = 3602879701896397 / 9007199254740992"
  by code_simp

lemma float_0_5: "py_float (5 / 10) = 1 / 2"
  by code_simp

lemma float_1: "py_float 1 = 1"
  by code_simp

text \<open>Line 75 on two floats of \<open>[0,1]\<close>: the products stay below the weights, which add up to 1.\<close>

lemma fmul_0_6:
  assumes "0 \<le> x" "x \<le> 1"
  shows "0 \<le> fmul (py_float (6 / 10)) x \<and>
         fmul (py_float (6 / 10)) x \<le> 5404319552844595 / 9007199254740992 \<and>
         \<bar>fmul (py_float (6 / 10)) x - 5404319552844595 / 9007199254740992 * x\<bar> \<le> 1 / 2 ^ 53"
proof -
  let ?c = "5404319552844595 / 9007199254740992 :: rat"
  have lo: "0 \<le> ?c * x" using assms by simp
  have hi: "?c * x \<le> ?c" using assms by simp
  have "py_float (?c * x) \<le> ?c"
  proof (cases "?c * x = 0")
    case True
    then show ?thesis by (simp add: py_float_def)
  next
    case False
    with lo have "0 < ?c * x" by simp
    then show ?thesis
      using hi by (intro py_float_le [where n = "- 1" and m = 5404319552844595]) simp_all
  qed
  moreover have "0 \<le> py_float (?c * x)"
    using lo by (rule py_float_nonneg)
  moreover have "\<bar>py_float (?c * x) - ?c * x\<bar> \<le> 1 / 2 ^ 53"
    using lo hi by (intro py_float_near) simp_all
  ultimately show ?thesis
    unfolding fmul_def float_0_6 by simp
qed

lemma fmul_0_4:
  assumes "0 \<le> y" "y \<le> 1"
  shows "0 \<le> fmul (py_float (4 / 10)) y \<and>
         fmul (py_float (4 / 10)) y \<le> 3602879701896397 / 9007199254740992 \<and>
         \<bar>fmul (py_float (4 / 10)) y - 3602879701896397 / 9007199254740992 * y\<bar> \<le> 1 / 2 ^ 53"
proof -
  let ?c = "3602879701896397 / 9007199254740992 :: rat"
  have lo: "0 \<le> ?c * y" using assms by simp
  have hi: "?c * y \<le> ?c" using assms by simp
  have "py_float (?c * y) \<le> ?c"
  proof (cases "?c * y = 0")
    case True
    then show ?thesis by (simp add: py_float_def)
  next
    case False
    with lo have "0 < ?c * y" by simp
    then show ?thesis
      using hi by (intro py_float_le [where n = "- 2" and m = 7205759403792794]) simp_all
  qed
  moreover have "0 \<le> py_float (?c * y)"
    using lo by (rule py_float_nonneg)
  moreover have "\<bar>py_float (?c * y) - ?c * y\<bar> \<le> 1 / 2 ^ 53"
    using lo hi by (intro py_float_near) simp_all
  ultimately show ?thesis
    unfolding fmul_def float_0_4 by simp
qed

lemma score_in_unit:
  assumes "0 \<le> x" "x \<le> 1" "0 \<le> y" "y \<le> 1"
  shows "0 \<le> fadd (fmul (py_float (6 / 10)) x) (fmul (py_float (4 / 10)) y) \<and>
         fadd (fmul (py_float (6 / 10)) x) (fmul (py_float (4 / 10)) y) \<le> 1 \<and>
         \<bar>fadd (fmul (py_float (6 / 10)) x) (fmul (py_float (4 / 10)) y) - (6 / 10 * x + 4 / 10 * y)\<bar>
           \<le> 5 / 2 ^ 53"
proof -
  define p1 where "p1 = fmul (py_float (6 / 10)) x"
  define p2 where "p2 = fmul (py_float (4 / 10)) y"
  define s where "s = py_float (p1 + p2)"
  have a: "0 \<le> p1" "p1 \<le> 5404319552844595 / 9007199254740992"
    "\<bar>p1 - 5404319552844595 / 9007199254740992 * x\<bar> \<le> 1 / 2 ^ 53"
    using fmul_0_6 [OF assms(1,2)] by (simp_all add: p1_def)
  have b: "0 \<le> p2" "p2 \<le> 3602879701896397 / 9007199254740992"
    "\<bar>p2 - 3602879701896397 / 9007199254740992 * y\<bar> \<le> 1 / 2 ^ 53"
    using fmul_0_4 [OF assms(3,4)] by (simp_all add: p2_def)
  have lo: "0 \<le> p1 + p2" using a(1) b(1) by simp
  have hi: "p1 + p2 \<le> 1" using a(2) b(2) by simp
  have c: "0 \<le> s" "s \<le> 1" "\<bar>s - (p1 + p2)\<bar> \<le> 1 / 2 ^ 53"
    unfolding s_def
    by (rule py_float_nonneg [OF lo], rule py_float_le_1 [OF lo hi], rule py_float_near [OF lo hi])
  have e: "(2::rat) ^ 53 = 9007199254740992" by simp
  have "\<bar>s - (6 / 10 * x + 4 / 10 * y)\<bar> \<le> 5 / 2 ^ 53"
    using a(3) b(3) c(3) assms unfolding e by linarith
  with c show ?thesis
    by (simp add: fadd_def s_def p1_def p2_def)
qed

text \<open>
  The overflow test of \<open>truediv\<close> by the binary exponent, for evaluation: it avoids
  computing \<open>2^1024\<close>.
\<close>

lemma floor_log2_ge_iff:
  assumes "0 < q"
  shows "(2 powi n \<le> q) = (n \<le> floor_log2 q)"
proof
  assume "2 powi n \<le> q"
  from this floor_log2_bounds(2) [OF assms] have lt: "(2::rat) powi n < 2 powi (floor_log2 q + 1)"
    by (rule le_less_trans)
  show "n \<le> floor_log2 q"
  proof (rule ccontr)
    assume "\<not> n \<le> floor_log2 q"
    then have "floor_log2 q + 1 \<le> n" by simp
    then have "(2::rat) powi (floor_log2 q + 1) \<le> 2 powi n"
      by (intro power_int_increasing) simp_all
    with lt show False by simp
  qed
next
  assume "n \<le> floor_log2 q"
  then have "(2::rat) powi n \<le> 2 powi floor_log2 q"
    by (intro power_int_increasing) simp_all
  from this floor_log2_bounds(1) [OF assms] show "2 powi n \<le> q"
    by (rule order_trans)
qed

lemma overflow_iff:
  assumes "0 \<le> q"
  shows "(2 ^ 1024 \<le> q) = (q \<noteq> 0 \<and> 1024 \<le> floor_log2 q)"
proof (cases "q = 0")
  case True
  then show ?thesis by (simp only: not_le zero_less_power zero_less_numeral simp_thms)
next
  case False
  with assms have pos: "0 < q" by simp
  have p: "(2::rat) ^ 1024 = 2 powi 1024"
    by (simp only: power_int_numeral)
  from False floor_log2_ge_iff [OF pos, of 1024] show ?thesis
    unfolding p by (simp only: simp_thms)
qed

lemma truediv_code [code]:
  "truediv a b =
     (if b = 0 then Inl ZeroDivisionError
      else let q = py_float (of_nat a / of_nat b)
           in if q \<noteq> 0 \<and> 1024 \<le> floor_log2 q then Inl OverflowError else Inr q)"
proof -
  have "0 \<le> py_float (of_nat a / of_nat b)"
    by (intro py_float_nonneg) simp
  from overflow_iff [OF this] show ?thesis
    by (simp only: truediv_def Let_def)
qed

section \<open>Properties of the scorer\<close>

lemma fcard_zero_iff: "fcard s = 0 \<longleftrightarrow> s = {||}"
  by (metis fcard_fempty fcard_seteq le0 fempty_fsubsetI)

lemma ratio_in_unit: "a \<le> b \<Longrightarrow> 0 \<le> (of_nat a / of_nat b :: rat) \<and> (of_nat a / of_nat b :: rat) \<le> 1"
  by (cases "b = 0") (simp_all add: divide_le_eq_1)

text \<open>A quotient of two counts, the first not above the second, is a float of \<open>[0,1]\<close>.\<close>

lemma ratio_float_unit:
  assumes "a \<le> b"
  shows "0 \<le> py_float (of_nat a / of_nat b)" and "py_float (of_nat a / of_nat b) \<le> 1"
    and "\<bar>py_float (of_nat a / of_nat b) - of_nat a / of_nat b\<bar> \<le> 1 / 2 ^ 53"
proof -
  from ratio_in_unit [OF assms]
  have lo: "0 \<le> (of_nat a / of_nat b :: rat)" and hi: "(of_nat a / of_nat b :: rat) \<le> 1"
    by simp_all
  show "0 \<le> py_float (of_nat a / of_nat b)" by (rule py_float_nonneg [OF lo])
  show "py_float (of_nat a / of_nat b) \<le> 1" by (rule py_float_le_1 [OF lo hi])
  show "\<bar>py_float (of_nat a / of_nat b) - of_nat a / of_nat b\<bar> \<le> 1 / 2 ^ 53"
    by (rule py_float_near [OF lo hi])
qed

lemma truediv_ratio:
  assumes "a \<le> b" "b \<noteq> 0"
  shows "truediv a b = Inr (py_float (of_nat a / of_nat b))"
proof -
  have "py_float (of_nat a / of_nat b) \<le> 1"
    by (rule ratio_float_unit(2) [OF assms(1)])
  moreover have "(1::rat) < 2 ^ 1024" by simp
  ultimately have "\<not> 2 ^ 1024 \<le> py_float (of_nat a / of_nat b)"
    by linarith
  with assms(2) show ?thesis
    by (simp add: truediv_def Let_def)
qed

lemma jaccard_value:
  "jaccard s1 s2 =
     Inr (if s1 = {||} \<and> s2 = {||} then 0
          else py_float (of_nat (fcard (s1 |\<inter>| s2)) / of_nat (fcard (s1 |\<union>| s2))))"
proof (cases "s1 = {||} \<and> s2 = {||}")
  case True
  then show ?thesis by (simp add: jaccard_def)
next
  case False
  then have ne: "fcard (s1 |\<union>| s2) \<noteq> 0"
    by (simp add: fcard_zero_iff)
  have le: "fcard (s1 |\<inter>| s2) \<le> fcard (s1 |\<union>| s2)"
    by (rule fcard_mono) auto
  have "jaccard s1 s2 = truediv (fcard (s1 |\<inter>| s2)) (fcard (s1 |\<union>| s2))"
    by (simp only: jaccard_def Let_def False ne if_False if_True simp_thms)
  with False show ?thesis
    by (simp only: truediv_ratio [OF le ne] if_False)
qed

lemma file_overlap_value:
  "(if fset_of_list fs = {||} then Inr 0
    else truediv (fcard (fset_of_list fs |\<inter>| gs)) (fcard (fset_of_list fs))) =
   Inr (if fs = [] then 0
        else py_float (of_nat (fcard (fset_of_list fs |\<inter>| gs)) / of_nat (fcard (fset_of_list fs))))"
proof (cases "fs = []")
  case True
  then show ?thesis by simp
next
  case False
  then have e: "fset_of_list fs \<noteq> {||}"
    by (cases fs) simp_all
  then have ne: "fcard (fset_of_list fs) \<noteq> 0"
    by (simp add: fcard_zero_iff)
  have le: "fcard (fset_of_list fs |\<inter>| gs) \<le> fcard (fset_of_list fs)"
    by (rule fcard_mono) auto
  from False e show ?thesis
    by (simp add: truediv_ratio [OF le ne])
qed

lemma compute_similarity_value:
  "compute_similarity current candidate =
     (let fo = (if files current = [] then 0
                else py_float
                       (of_nat (fcard (fset_of_list (files current) |\<inter>| fset_of_list (files candidate)))
                        / of_nat (fcard (fset_of_list (files current)))));
          ts = (if tokenize (Some (pr_text current)) = {||} \<and> tokenize (Some (pr_text candidate)) = {||}
                then 0
                else py_float
                       (of_nat (fcard (tokenize (Some (pr_text current)) |\<inter>| tokenize (Some (pr_text candidate))))
                        / of_nat (fcard (tokenize (Some (pr_text current)) |\<union>| tokenize (Some (pr_text candidate))))))
      in Inr (fadd (fmul (py_float (6 / 10)) fo) (fmul (py_float (4 / 10)) ts), fo, ts))"
  unfolding compute_similarity_def Let_def file_overlap_value jaccard_value by simp

lemma file_overlap_range:
  "0 \<le> py_float (of_nat (fcard (a |\<inter>| b)) / of_nat (fcard a)) \<and>
   py_float (of_nat (fcard (a |\<inter>| b)) / of_nat (fcard a)) \<le> 1"
proof -
  have "fcard (a |\<inter>| b) \<le> fcard a" by (rule fcard_mono) auto
  then show ?thesis by (simp add: ratio_float_unit)
qed

lemma text_sim_range:
  "0 \<le> py_float (of_nat (fcard (a |\<inter>| b)) / of_nat (fcard (a |\<union>| b))) \<and>
   py_float (of_nat (fcard (a |\<inter>| b)) / of_nat (fcard (a |\<union>| b))) \<le> 1"
proof -
  have "fcard (a |\<inter>| b) \<le> fcard (a |\<union>| b)" by (rule fcard_mono) auto
  then show ?thesis by (simp add: ratio_float_unit)
qed

text \<open>The two ratios of \<open>compute_similarity\<close> and the way its score is computed from them.\<close>

lemma compute_similarity_shape:
  "\<exists>fo ts.
     compute_similarity current candidate =
       Inr (fadd (fmul (py_float (6 / 10)) fo) (fmul (py_float (4 / 10)) ts), fo, ts) \<and>
     0 \<le> fo \<and> fo \<le> 1 \<and> 0 \<le> ts \<and> ts \<le> 1 \<and>
     (files current = [] \<longrightarrow> fo = 0) \<and>
     (tokenize (Some (pr_text current)) = {||} \<and> tokenize (Some (pr_text candidate)) = {||} \<longrightarrow> ts = 0)"
proof -
  define fo where "fo = (if files current = [] then 0
                else py_float
                       (of_nat (fcard (fset_of_list (files current) |\<inter>| fset_of_list (files candidate)))
                        / of_nat (fcard (fset_of_list (files current)))))"
  define ts where "ts = (if tokenize (Some (pr_text current)) = {||} \<and> tokenize (Some (pr_text candidate)) = {||}
                then 0
                else py_float
                       (of_nat (fcard (tokenize (Some (pr_text current)) |\<inter>| tokenize (Some (pr_text candidate))))
                        / of_nat (fcard (tokenize (Some (pr_text current)) |\<union>| tokenize (Some (pr_text candidate))))))"
  have v: "compute_similarity current candidate =
       Inr (fadd (fmul (py_float (6 / 10)) fo) (fmul (py_float (4 / 10)) ts), fo, ts)"
    unfolding compute_similarity_value Let_def fo_def ts_def ..
  have f: "0 \<le> fo \<and> fo \<le> 1"
    unfolding fo_def
    using file_overlap_range [of "fset_of_list (files current)" "fset_of_list (files candidate)"]
    by simp
  have t: "0 \<le> ts \<and> ts \<le> 1"
    unfolding ts_def
    using text_sim_range [of "tokenize (Some (pr_text current))" "tokenize (Some (pr_text candidate))"]
    by simp
  have z: "files current = [] \<longrightarrow> fo = 0"
    "tokenize (Some (pr_text current)) = {||} \<and> tokenize (Some (pr_text candidate)) = {||} \<longrightarrow> ts = 0"
    by (simp_all add: fo_def ts_def)
  from v f t z show ?thesis by blast
qed

text \<open>
  C4: the Jaccard index of two token sets lies in \<open>[0,1]\<close>, is 1 for a non-empty set with
  itself, is 0 (not an error) for two empty sets, and is symmetric.
\<close>

theorem jaccard_props:
  "(\<exists>r. jaccard s1 s2 = Inr r \<and> 0 \<le> r \<and> r \<le> 1) \<and>
   (s1 \<noteq> {||} \<longrightarrow> jaccard s1 s1 = Inr 1) \<and>
   jaccard ({||} :: 'a fset) {||} = Inr 0 \<and>
   jaccard s1 s2 = jaccard s2 s1"
proof (intro conjI impI)
  show "\<exists>r. jaccard s1 s2 = Inr r \<and> 0 \<le> r \<and> r \<le> 1"
    using text_sim_range [of s1 s2] by (simp add: jaccard_value)
  show "jaccard s1 s1 = Inr 1" if "s1 \<noteq> {||}"
    using that by (simp add: jaccard_value fcard_zero_iff float_1)
  show "jaccard ({||} :: 'a fset) {||} = Inr 0"
    by (simp add: jaccard_value)
  show "jaccard s1 s2 = jaccard s2 s1"
    by (simp add: jaccard_value inf_commute sup_commute conj_commute)
qed

theorem jaccard_props_witness:
  "jaccard {|''fix'', ''bug''|} {|''bug'', ''login''|} = Inr (6004799503160661 / 18014398509481984) \<and>
   {|''fix'', ''bug''|} \<noteq> {||} \<and>
   jaccard {|''fix'', ''bug''|} {|''fix'', ''bug''|} = Inr 1 \<and>
   jaccard {|''bug'', ''login''|} {|''fix'', ''bug''|} = Inr (6004799503160661 / 18014398509481984)"
proof -
  have a: "jaccard {|''fix'', ''bug''|} {|''bug'', ''login''|} = Inr (6004799503160661 / 18014398509481984)"
    by code_simp
  have b: "{|''fix'', ''bug''|} \<noteq> {||}"
    by simp
  note t = jaccard_props [of "{|''fix'', ''bug''|}" "{|''bug'', ''login''|}"]
  have s: "jaccard {|''fix'', ''bug''|} {|''fix'', ''bug''|} = Inr 1"
    by (rule t [THEN conjunct2, THEN conjunct1, THEN mp, OF b])
  have y: "jaccard {|''bug'', ''login''|} {|''fix'', ''bug''|} = Inr (6004799503160661 / 18014398509481984)"
    using a unfolding t [THEN conjunct2, THEN conjunct2, THEN conjunct2] .
  from a b s y show ?thesis by (intro conjI)
qed

text \<open>
  C1, as the code has it: for every pair of records \<open>compute_similarity\<close> returns a triple
  \<open>(score, file_overlap, text_sim)\<close> of floats of \<open>[0,1]\<close>. The score is the float that line 75
  computes from the two ratios, rounding after each operation; it is within \<open>5 / 2^53\<close> of
  \<open>0.6 * file_overlap + 0.4 * text_sim\<close>.
\<close>

theorem compute_similarity_score_rounded:
  "\<exists>score file_overlap text_sim.
     compute_similarity current candidate = Inr (score, file_overlap, text_sim) \<and>
     0 \<le> file_overlap \<and> file_overlap \<le> 1 \<and>
     0 \<le> text_sim \<and> text_sim \<le> 1 \<and>
     score = fadd (fmul (py_float (6 / 10)) file_overlap) (fmul (py_float (4 / 10)) text_sim) \<and>
     \<bar>score - (6 / 10 * file_overlap + 4 / 10 * text_sim)\<bar> \<le> 5 / 2 ^ 53 \<and>
     0 \<le> score \<and> score \<le> 1"
proof -
  obtain fo ts where v: "compute_similarity current candidate =
       Inr (fadd (fmul (py_float (6 / 10)) fo) (fmul (py_float (4 / 10)) ts), fo, ts)"
    and r: "0 \<le> fo" "fo \<le> 1" "0 \<le> ts" "ts \<le> 1"
    using compute_similarity_shape [of current candidate] by blast
  from score_in_unit [OF r] v r show ?thesis
    by (intro exI [of _ "fadd (fmul (py_float (6 / 10)) fo) (fmul (py_float (4 / 10)) ts)"]
          exI [of _ fo] exI [of _ ts] conjI) simp_all
qed

text \<open>The scorer on the sample records.\<close>

lemma sample_login_again_login:
  "compute_similarity pr_login_again pr_login =
     Inr (3602879701896397 / 4503599627370496, 6004799503160661 / 9007199254740992, 1)"
  by code_simp

lemma sample_login_login_again: "compute_similarity pr_login pr_login_again = Inr (1, 1, 1)"
  by code_simp

lemma sample_blank_login: "compute_similarity pr_blank pr_login = Inr (0, 0, 0)"
  by code_simp

theorem compute_similarity_score_rounded_witness:
  "compute_similarity pr_login_again pr_login =
     Inr (3602879701896397 / 4503599627370496, 6004799503160661 / 9007199254740992, 1) \<and>
   (\<exists>score file_overlap text_sim.
     compute_similarity pr_login_again pr_login = Inr (score, file_overlap, text_sim) \<and>
     0 \<le> file_overlap \<and> file_overlap \<le> 1 \<and>
     0 \<le> text_sim \<and> text_sim \<le> 1 \<and>
     score = fadd (fmul (py_float (6 / 10)) file_overlap) (fmul (py_float (4 / 10)) text_sim) \<and>
     \<bar>score - (6 / 10 * file_overlap + 4 / 10 * text_sim)\<bar> \<le> 5 / 2 ^ 53 \<and>
     0 \<le> score \<and> score \<le> 1)"
  by (rule conjI [OF sample_login_again_login compute_similarity_score_rounded])

text \<open>
  C1 as stated fails: with three of four files and one of eight tokens in common the ratios
  are 0.75 and 0.125, the weighted sum is 0.5, and the code returns 0.49999999999999994,
  which is below the threshold of line 144.
\<close>

theorem compute_similarity_score_counterexample:
  "compute_similarity pr_four pr_three_of_four =
     Inr (9007199254740991 / 18014398509481984, 3 / 4, 1 / 8) \<and>
   (6 / 10 * (3 / 4) + 4 / 10 * (1 / 8) :: rat) = 1 / 2 \<and>
   (9007199254740991 / 18014398509481984 :: rat) \<noteq> 6 / 10 * (3 / 4) + 4 / 10 * (1 / 8) \<and>
   (9007199254740991 / 18014398509481984 :: rat) \<noteq> py_float (6 / 10) * (3 / 4) + py_float (4 / 10) * (1 / 8) \<and>
   \<not> gate (9007199254740991 / 18014398509481984, 3 / 4, 1 / 8, pr_three_of_four)"
proof (intro conjI)
  show "compute_similarity pr_four pr_three_of_four =
     Inr (9007199254740991 / 18014398509481984, 3 / 4, 1 / 8)"
    by code_simp
  show "(6 / 10 * (3 / 4) + 4 / 10 * (1 / 8) :: rat) = 1 / 2"
    by simp
  show "(9007199254740991 / 18014398509481984 :: rat) \<noteq> 6 / 10 * (3 / 4) + 4 / 10 * (1 / 8)"
    by simp
  show "(9007199254740991 / 18014398509481984 :: rat) \<noteq>
        py_float (6 / 10) * (3 / 4) + py_float (4 / 10) * (1 / 8)"
    unfolding float_0_6 float_0_4 by simp
  show "\<not> gate (9007199254740991 / 18014398509481984, 3 / 4, 1 / 8, pr_three_of_four)"
    unfolding gate.simps float_0_5 float_0_4 by simp
qed

lemma fcard_of_list:
  "fcard (fset_of_list xs |\<inter>| fset_of_list ys) = card (set xs \<inter> set ys)"
  "fcard (fset_of_list xs) = card (set xs)"
  by (simp_all add: fcard.rep_eq fset_of_list.rep_eq)

text \<open>
  C2: the file overlap is 0 when the current record has no files, and otherwise the
  quotient, as the float nearest to it, of the number of distinct current files that the
  candidate also touches by the number of distinct current files; a candidate that touches
  every file of a non-empty current changeset has overlap 1.
\<close>

theorem file_overlap_asymmetric:
  "\<exists>score text_sim.
     compute_similarity current candidate =
       Inr (score,
            (if set (files current) = {} then 0
             else py_float (of_nat (card (set (files current) \<inter> set (files candidate)))
                            / of_nat (card (set (files current))))),
            text_sim) \<and>
     \<bar>py_float (of_nat (card (set (files current) \<inter> set (files candidate)))
                / of_nat (card (set (files current))))
      - of_nat (card (set (files current) \<inter> set (files candidate)))
        / of_nat (card (set (files current)))\<bar> \<le> 1 / 2 ^ 53 \<and>
     (set (files current) \<noteq> {} \<and> set (files current) \<subseteq> set (files candidate)
        \<longrightarrow> compute_similarity current candidate = Inr (score, 1, text_sim))"
proof -
  have sup: "set (files current) \<inter> set (files candidate) = set (files current)"
    if "set (files current) \<subseteq> set (files candidate)"
    using that by blast
  have one: "py_float (of_nat (card (set (files current))) / of_nat (card (set (files current)))) = 1"
    if "set (files current) \<noteq> {}"
    using that by (simp add: float_1)
  have le: "card (set (files current) \<inter> set (files candidate)) \<le> card (set (files current))"
    by (rule card_mono) simp_all
  note near = ratio_float_unit(3) [OF le]
  show ?thesis
    using sup one near by (simp add: compute_similarity_value Let_def fcard_of_list)
qed

theorem file_overlap_asymmetric_witness:
  "set (files pr_login) \<noteq> {} \<and> set (files pr_login) \<subseteq> set (files pr_login_again) \<and>
   compute_similarity pr_login pr_login_again = Inr (1, 1, 1) \<and>
   compute_similarity pr_login_again pr_login =
     Inr (3602879701896397 / 4503599627370496, 6004799503160661 / 9007199254740992, 1) \<and>
   compute_similarity pr_blank pr_login = Inr (0, 0, 0)"
proof -
  have a: "set (files pr_login) \<noteq> {}" "set (files pr_login) \<subseteq> set (files pr_login_again)"
    by (simp_all add: pr_login_def pr_login_again_def)
  from file_overlap_asymmetric [of pr_login pr_login_again] a
  obtain score text_sim where c: "compute_similarity pr_login pr_login_again = Inr (score, 1, text_sim)"
    by blast
  from a c sample_login_login_again sample_login_again_login sample_blank_login
  show ?thesis by (intro conjI)
qed

text \<open>
  C9: \<open>compute_similarity\<close> raises on no input: neither division is ever reached with a
  zero divisor. An empty current file list gives file overlap 0, and two empty token sets give
  text similarity 0.
\<close>

theorem compute_similarity_total:
  "(\<forall>e. compute_similarity current candidate \<noteq> Inl e) \<and>
   (files current = [] \<longrightarrow>
      (\<exists>score text_sim. compute_similarity current candidate = Inr (score, 0, text_sim))) \<and>
   (tokenize (Some (pr_text current)) = {||} \<and> tokenize (Some (pr_text candidate)) = {||} \<longrightarrow>
      (\<exists>score file_overlap. compute_similarity current candidate = Inr (score, file_overlap, 0)))"
proof -
  obtain fo ts where v: "compute_similarity current candidate =
       Inr (fadd (fmul (py_float (6 / 10)) fo) (fmul (py_float (4 / 10)) ts), fo, ts)"
    and fo: "files current = [] \<Longrightarrow> fo = 0"
    and ts: "tokenize (Some (pr_text current)) = {||} \<and> tokenize (Some (pr_text candidate)) = {||}
             \<Longrightarrow> ts = 0"
    using compute_similarity_shape [of current candidate] by blast
  have "compute_similarity current candidate \<noteq> Inl e" for e
    using v by simp
  moreover have "\<exists>score text_sim. compute_similarity current candidate = Inr (score, 0, text_sim)"
    if "files current = []"
    using v fo [OF that] by blast
  moreover have "\<exists>score file_overlap. compute_similarity current candidate = Inr (score, file_overlap, 0)"
    if "tokenize (Some (pr_text current)) = {||} \<and> tokenize (Some (pr_text candidate)) = {||}"
    using v ts [OF that] by blast
  ultimately show ?thesis by blast
qed

theorem compute_similarity_total_witness:
  "files pr_blank = [] \<and>
   tokenize (Some (pr_text pr_blank)) = {||} \<and>
   (\<forall>e. compute_similarity pr_blank pr_blank \<noteq> Inl e) \<and>
   (\<exists>score text_sim. compute_similarity pr_blank pr_blank = Inr (score, 0, text_sim)) \<and>
   (\<exists>score file_overlap. compute_similarity pr_blank pr_blank = Inr (score, file_overlap, 0))"
proof -
  have a: "files pr_blank = []" by (simp add: pr_blank_def)
  have b: "tokenize (Some (pr_text pr_blank)) = {||}" by code_simp
  from compute_similarity_total [of pr_blank pr_blank] a b show ?thesis by simp
qed

text \<open>
  C10: only the distinct paths of each file list matter: replacing either list by any
  list with the same set of paths (a permutation, or one with repetitions) leaves the whole
  triple unchanged.
\<close>

theorem compute_similarity_distinct_files:
  "set fs = set (files current) \<Longrightarrow> set gs = set (files candidate) \<Longrightarrow>
   compute_similarity (current\<lparr>files := fs\<rparr>) (candidate\<lparr>files := gs\<rparr>) =
   compute_similarity current candidate"
proof -
  assume a: "set fs = set (files current)" "set gs = set (files candidate)"
  have e: "fset_of_list fs = fset_of_list (files current)"
    "fset_of_list gs = fset_of_list (files candidate)"
    using a by (simp_all add: fset_of_list.rep_eq fset_eqI flip: fset_inject)
  have t: "pr_text (current\<lparr>files := fs\<rparr>) = pr_text current"
    "pr_text (candidate\<lparr>files := gs\<rparr>) = pr_text candidate"
    by (simp_all add: pr_text_def)
  have n: "(fs = []) = (files current = [])"
    using a(1) by (metis set_empty)
  show ?thesis
    by (simp add: compute_similarity_value Let_def e t n)
qed

theorem compute_similarity_distinct_files_witness:
  "set [''b.py'', ''a.py'', ''b.py''] = set (files pr_login) \<and>
   set [''c.py'', ''b.py'', ''a.py''] = set (files pr_login_again) \<and>
   compute_similarity (pr_login\<lparr>files := [''b.py'', ''a.py'', ''b.py'']\<rparr>)
                      (pr_login_again\<lparr>files := [''c.py'', ''b.py'', ''a.py'']\<rparr>) =
   compute_similarity pr_login pr_login_again"
proof -
  have a: "set [''b.py'', ''a.py'', ''b.py''] = set (files pr_login)"
    "set [''c.py'', ''b.py'', ''a.py''] = set (files pr_login_again)"
    by (auto simp: pr_login_def pr_login_again_def)
  from compute_similarity_distinct_files [OF a] a show ?thesis by simp
qed

section \<open>Properties of the gate and the ranking\<close>

lemma gate_iff:
  "gate r \<longleftrightarrow> fst r \<ge> 1 / 2 \<and> fst (snd r) \<ge> 3602879701896397 / 9007199254740992"
  by (cases r) (simp only: gate.simps float_0_5 float_0_4 fst_conv snd_conv)

lemma sort_by_score_sorted: "sorted_wrt (\<lambda>a b. fst a \<ge> fst b) (sort_by_score xs)"
proof -
  have "sorted (map (\<lambda>x. - fst x) (sort_by_score xs))"
    unfolding sort_by_score_def by (rule sorted_sort_key)
  then show ?thesis
    by (simp add: sorted_map)
qed

lemma sort_by_score_stable:
  "filter (\<lambda>r. fst r = k) (sort_by_score xs) = filter (\<lambda>r. fst r = k) xs"
proof -
  have "filter (\<lambda>r. - fst r = - k) (sort_by_score xs) = filter (\<lambda>r. - fst r = - k) xs"
    unfolding sort_by_score_def by (rule sort_key_stable)
  then show ?thesis by simp
qed

lemma set_top3: "set (top3 xs) \<subseteq> set xs"
  unfolding top3_def sort_by_score_def using set_take_subset [of 3 "sort_key (\<lambda>x. - fst x) xs"] by simp

text \<open>
  C3: gating by both thresholds, sorting by descending score and truncating gives at most
  three results, each passing both thresholds, in non-increasing score order; the results of
  any one score are the first of the gated candidates with that score, in encounter order.
\<close>

theorem selection_top3:
  "length (top3 (filter gate scored)) \<le> 3 \<and>
   (\<forall>r \<in> set (top3 (filter gate scored)). fst r \<ge> 5 / 10 \<and> fst (snd r) \<ge> 4 / 10) \<and>
   sorted_wrt (\<lambda>a b. fst a \<ge> fst b) (top3 (filter gate scored)) \<and>
   (\<forall>k. prefix (filter (\<lambda>r. fst r = k) (top3 (filter gate scored)))
               (filter (\<lambda>r. fst r = k) (filter gate scored)))"
proof (intro conjI ballI allI)
  show "length (top3 (filter gate scored)) \<le> 3"
    by (simp add: top3_def)
next
  fix r assume "r \<in> set (top3 (filter gate scored))"
  with set_top3 have "r \<in> set (filter gate scored)" by blast
  then have "gate r" by simp
  then show "fst r \<ge> 5 / 10" "fst (snd r) \<ge> 4 / 10"
    by (simp_all add: gate_iff)
next
  show "sorted_wrt (\<lambda>a b. fst a \<ge> fst b) (top3 (filter gate scored))"
    unfolding top3_def by (rule sorted_wrt_take) (rule sort_by_score_sorted)
next
  fix k
  have "prefix (filter (\<lambda>r. fst r = k) (take 3 (sort_by_score (filter gate scored))))
               (filter (\<lambda>r. fst r = k) (sort_by_score (filter gate scored)))"
    by (rule filter_mono_prefix) (rule take_is_prefix)
  then show "prefix (filter (\<lambda>r. fst r = k) (top3 (filter gate scored)))
               (filter (\<lambda>r. fst r = k) (filter gate scored))"
    by (simp add: top3_def sort_by_score_stable)
qed

theorem selection_top3_witness:
  "top3 (filter gate scored_sample) =
     [(24 / 25, 1, 9 / 10, pr_blank), (9 / 10, 1, 3 / 4, pr_login), (9 / 10, 1, 3 / 4, pr_login_again)] \<and>
   filter (\<lambda>r. fst r = 9 / 10) (filter gate scored_sample) =
     [(9 / 10, 1, 3 / 4, pr_login), (9 / 10, 1, 3 / 4, pr_login_again),
      (9 / 10, 1, 3 / 4, pr_blank), (9 / 10, 1, 3 / 4, pr_login)] \<and>
   prefix (filter (\<lambda>r. fst r = 9 / 10) (top3 (filter gate scored_sample)))
          (filter (\<lambda>r. fst r = 9 / 10) (filter gate scored_sample)) \<and>
   length (top3 (filter gate scored_sample)) \<le> 3"
proof -
  have g: "filter gate scored_sample =
     [(9 / 10, 1, 3 / 4, pr_login), (9 / 10, 1, 3 / 4, pr_login_again),
      (24 / 25, 1, 9 / 10, pr_blank), (9 / 10, 1, 3 / 4, pr_blank), (9 / 10, 1, 3 / 4, pr_login)]"
    by (simp add: scored_sample_def gate_iff)
  have a: "top3 (filter gate scored_sample) =
     [(24 / 25, 1, 9 / 10, pr_blank), (9 / 10, 1, 3 / 4, pr_login), (9 / 10, 1, 3 / 4, pr_login_again)]"
    unfolding g by code_simp
  have b: "filter (\<lambda>r. fst r = 9 / 10) (filter gate scored_sample) =
     [(9 / 10, 1, 3 / 4, pr_login), (9 / 10, 1, 3 / 4, pr_login_again),
      (9 / 10, 1, 3 / 4, pr_blank), (9 / 10, 1, 3 / 4, pr_login)]"
    unfolding g by code_simp
  from selection_top3 [of scored_sample] a b show ?thesis by blast
qed

section \<open>Properties of the listing of recent pull requests\<close>

lemma scan_page_eq:
  "scan_page since prs res =
     (if \<forall>pr \<in> set res. \<not> pj_updated_at pr < since then Fell_through (prs @ res)
      else Returned (prs @ takeWhile (\<lambda>pr. \<not> pj_updated_at pr < since) res))"
  by (induction res arbitrary: prs) auto

lemma get_recent_prs_from_eq:
  assumes "\<forall>p. page \<le> p \<and> p < n \<longrightarrow> gh_pulls w p = Inr (pg p) \<and> pg p \<noteq> []"
    and "gh_pulls w n = Inr [] \<or> (\<exists>pr \<in> set (concat (map pg [page..<n])). pj_updated_at pr < since)"
    and "page \<le> n"
  shows "get_recent_prs_from w since prs page =
           Some (Inr (prs @ takeWhile (\<lambda>pr. \<not> pj_updated_at pr < since) (concat (map pg [page..<n]))))"
  using assms
proof (induction "n - page" arbitrary: page prs)
  case 0
  then have "page = n" by simp
  with 0 show ?case
    by (subst get_recent_prs_from.simps) simp
next
  case (Suc d)
  then have lt: "page < n" by simp
  with Suc.prems have here: "gh_pulls w page = Inr (pg page)" "pg page \<noteq> []" by simp_all
  have up: "[page..<n] = page # [Suc page..<n]"
    using lt by (simp add: upt_conv_Cons)
  show ?case
  proof (cases "\<forall>pr \<in> set (pg page). \<not> pj_updated_at pr < since")
    case True
    have "get_recent_prs_from w since (prs @ pg page) (Suc page) =
            Some (Inr ((prs @ pg page) @
                   takeWhile (\<lambda>pr. \<not> pj_updated_at pr < since) (concat (map pg [Suc page..<n]))))"
    proof (rule Suc.hyps(1))
      show "d = n - Suc page" using Suc.hyps(2) by simp
      show "\<forall>p. Suc page \<le> p \<and> p < n \<longrightarrow> gh_pulls w p = Inr (pg p) \<and> pg p \<noteq> []"
        using Suc.prems(1) by simp
      show "gh_pulls w n = Inr [] \<or>
            (\<exists>pr \<in> set (concat (map pg [Suc page..<n])). pj_updated_at pr < since)"
        using Suc.prems(2) True by (auto simp: up)
      show "Suc page \<le> n" using lt by simp
    qed
    moreover from True have "scan_page since prs (pg page) = Fell_through (prs @ pg page)"
      by (simp add: scan_page_eq)
    ultimately show ?thesis
      using here True by (subst get_recent_prs_from.simps) (simp add: up takeWhile_append2)
  next
    case False
    then obtain old where "old \<in> set (pg page)" "pj_updated_at old < since"
      by blast
    then have "takeWhile (\<lambda>pr. \<not> pj_updated_at pr < since) (pg page @ rest) =
               takeWhile (\<lambda>pr. \<not> pj_updated_at pr < since) (pg page)" for rest
      by (intro takeWhile_append1 [of old]) simp_all
    moreover from False have "scan_page since prs (pg page) =
        Returned (prs @ takeWhile (\<lambda>pr. \<not> pj_updated_at pr < since) (pg page))"
      by (simp add: scan_page_eq)
    ultimately show ?thesis
      using here by (subst get_recent_prs_from.simps) (simp add: up)
  qed
qed

lemma takeWhile_sorted_desc:
  "sorted_wrt (\<lambda>a b. f b \<le> f a) xs \<Longrightarrow>
   takeWhile (\<lambda>x. \<not> f x < (c :: 'b :: linorder)) xs = filter (\<lambda>x. \<not> f x < c) xs"
proof (induction xs)
  case Nil
  then show ?case by simp
next
  case (Cons x xs)
  show ?case
  proof (cases "f x < c")
    case True
    with Cons.prems have "\<forall>y \<in> set xs. f y < c" by auto
    with True show ?thesis by (simp add: filter_empty_conv)
  next
    case False
    with Cons show ?thesis by simp
  qed
qed

text \<open>
  C5, as the code has it: when the pages before the first empty page are served and the
  listing ends with an empty page or holds an entry older than the cutoff, \<open>get_recent_prs\<close>
  returns the entries that come before the first entry older than the cutoff, in listing
  order. On a listing in descending order of update time these are exactly the entries not
  older than the cutoff.
\<close>

theorem get_recent_prs_prefix:
  "(\<forall>p. 1 \<le> p \<and> p < n \<longrightarrow> gh_pulls w p = Inr (pg p) \<and> pg p \<noteq> []) \<and>
   (gh_pulls w n = Inr [] \<or>
    (\<exists>pr \<in> set (concat (map pg [1..<n])). pj_updated_at pr < clock_since w)) \<and>
   1 \<le> n \<longrightarrow>
   get_recent_prs w =
     Some (Inr (takeWhile (\<lambda>pr. \<not> pj_updated_at pr < clock_since w) (concat (map pg [1..<n])))) \<and>
   (sorted_wrt (\<lambda>a b. pj_updated_at b \<le> pj_updated_at a) (concat (map pg [1..<n])) \<longrightarrow>
    get_recent_prs w =
      Some (Inr (filter (\<lambda>pr. \<not> pj_updated_at pr < clock_since w) (concat (map pg [1..<n])))))"
proof (intro impI, elim conjE)
  assume a: "\<forall>p. 1 \<le> p \<and> p < n \<longrightarrow> gh_pulls w p = Inr (pg p) \<and> pg p \<noteq> []"
    and b: "gh_pulls w n = Inr [] \<or>
            (\<exists>pr \<in> set (concat (map pg [1..<n])). pj_updated_at pr < clock_since w)"
    and c: "1 \<le> n"
  have r: "get_recent_prs w =
     Some (Inr (takeWhile (\<lambda>pr. \<not> pj_updated_at pr < clock_since w) (concat (map pg [1..<n]))))"
    unfolding get_recent_prs_def using get_recent_prs_from_eq [OF a b c, of "[]"] by simp
  show "get_recent_prs w =
     Some (Inr (takeWhile (\<lambda>pr. \<not> pj_updated_at pr < clock_since w) (concat (map pg [1..<n])))) \<and>
   (sorted_wrt (\<lambda>a b. pj_updated_at b \<le> pj_updated_at a) (concat (map pg [1..<n])) \<longrightarrow>
    get_recent_prs w =
      Some (Inr (filter (\<lambda>pr. \<not> pj_updated_at pr < clock_since w) (concat (map pg [1..<n])))))"
    using r by (simp add: takeWhile_sorted_desc)
qed

theorem get_recent_prs_prefix_witness:
  "gh_pulls w_sorted 1 = Inr (pages_sorted 1) \<and> pages_sorted 1 \<noteq> [] \<and>
   gh_pulls w_sorted 2 = Inr (pages_sorted 2) \<and> pages_sorted 2 \<noteq> [] \<and>
   gh_pulls w_sorted 3 = Inr [] \<and>
   sorted_wrt (\<lambda>a b. pj_updated_at b \<le> pj_updated_at a) (concat (map pages_sorted [1..<3])) \<and>
   get_recent_prs w_sorted = Some (Inr [pj_current, pj_other, pj_twin])"
proof -
  have a: "\<forall>p. 1 \<le> p \<and> p < 3 \<longrightarrow> gh_pulls w_sorted p = Inr (pages_sorted p) \<and> pages_sorted p \<noteq> []"
    by (simp add: w_sorted_def pages_sorted_def)
  have b: "gh_pulls w_sorted 3 = Inr []"
    by (simp add: w_sorted_def pages_sorted_def)
  have l: "concat (map pages_sorted [1..<3]) = [pj_current, pj_other, pj_twin, pj_stale]"
    by code_simp
  have c: "sorted_wrt (\<lambda>a b. pj_updated_at b \<le> pj_updated_at a) (concat (map pages_sorted [1..<3]))"
    unfolding l by (simp add: pj_current_def pj_other_def pj_twin_def pj_stale_def)
  have d: "filter (\<lambda>pr. \<not> pj_updated_at pr < clock_since w_sorted) (concat (map pages_sorted [1..<3])) =
           [pj_current, pj_other, pj_twin]"
    unfolding l by (simp add: w_sorted_def pj_current_def pj_other_def pj_twin_def pj_stale_def)
  have e: "(1::nat) \<le> 3" by simp
  note r = get_recent_prs_prefix [of 3 w_sorted pages_sorted, THEN mp,
      OF conjI [OF a conjI [OF disjI1 [OF b] e]]]
  have "get_recent_prs w_sorted =
          Some (Inr (filter (\<lambda>pr. \<not> pj_updated_at pr < clock_since w_sorted)
                       (concat (map pages_sorted [1..<3]))))"
    by (rule r [THEN conjunct2, THEN mp, OF c])
  then have "get_recent_prs w_sorted = Some (Inr [pj_current, pj_other, pj_twin])"
    by (simp only: d)
  moreover have "gh_pulls w_sorted 1 = Inr (pages_sorted 1) \<and> pages_sorted 1 \<noteq> [] \<and>
      gh_pulls w_sorted 2 = Inr (pages_sorted 2) \<and> pages_sorted 2 \<noteq> []"
    by (simp add: w_sorted_def pages_sorted_def)
  ultimately show ?thesis using b c by simp
qed

text \<open>
  C5 as stated fails: on a page that lists a stale entry before a fresh one, the fresh entry
  is dropped.
\<close>

theorem get_recent_prs_skips_counterexample:
  "gh_pulls w_unsorted 1 = Inr [pj_current, pj_stale, pj_twin] \<and>
   \<not> pj_updated_at pj_twin < clock_since w_unsorted \<and>
   get_recent_prs w_unsorted = Some (Inr [pj_current]) \<and>
   pj_twin \<noteq> pj_current"
proof (intro conjI)
  show "pj_twin \<noteq> pj_current"
    by (simp add: pj_twin_def pj_current_def)
  show "gh_pulls w_unsorted 1 = Inr [pj_current, pj_stale, pj_twin]"
    by (simp add: w_unsorted_def pages_unsorted_def)
  show "\<not> pj_updated_at pj_twin < clock_since w_unsorted"
    by (simp add: w_unsorted_def w_sorted_def pj_twin_def)
  show "get_recent_prs w_unsorted = Some (Inr [pj_current])"
    by code_simp
qed

section \<open>Properties of the run\<close>

lemma collect_step:
  "pj_number pr \<noteq> number current \<Longrightarrow> \<not> pj_state pr \<notin> set [''open'', ''closed''] \<Longrightarrow>
   get_pr_files w (pj_number pr) = Some (Inr fs) \<Longrightarrow>
   compute_similarity current (make_record pr fs) = Inr (score, file_overlap, text_sim) \<Longrightarrow>
   collect w current (pr # recent_prs) candidates =
     (if gate (score, file_overlap, text_sim, make_record pr fs)
      then collect w current recent_prs (candidates @ [(score, file_overlap, text_sim, make_record pr fs)])
      else collect w current recent_prs candidates)"
  by (simp only: collect.simps if_False Let_def option.case sum.case prod.case)

lemma collect_step_result:
  "pj_number pr \<noteq> number current \<Longrightarrow> \<not> pj_state pr \<notin> set [''open'', ''closed''] \<Longrightarrow>
   collect w current (pr # recent_prs) candidates = Some (Inr out) \<Longrightarrow>
   \<exists>fs score file_overlap text_sim.
     get_pr_files w (pj_number pr) = Some (Inr fs) \<and>
     compute_similarity current (make_record pr fs) = Inr (score, file_overlap, text_sim)"
proof -
  assume a: "pj_number pr \<noteq> number current" "\<not> pj_state pr \<notin> set [''open'', ''closed'']"
    and r: "collect w current (pr # recent_prs) candidates = Some (Inr out)"
  show ?thesis
  proof (cases "get_pr_files w (pj_number pr)")
    case None
    with a have "collect w current (pr # recent_prs) candidates = None"
      by (simp only: collect.simps if_False option.case)
    with r show ?thesis by simp
  next
    case (Some x)
    show ?thesis
    proof (cases x)
      case (Inl e)
      with Some a have "collect w current (pr # recent_prs) candidates = Some (Inl e)"
        by (simp only: collect.simps if_False option.case sum.case)
      with r show ?thesis by simp
    next
      case (Inr fs)
      have "\<exists>score file_overlap text_sim.
              compute_similarity current (make_record pr fs) = Inr (score, file_overlap, text_sim)"
        by (simp add: compute_similarity_value Let_def)
      with Some Inr show ?thesis by blast
    qed
  qed
qed

lemma collect_numbers:
  "collect w current recent_prs cands = Some (Inr out) \<Longrightarrow>
   \<forall>c \<in> set cands. number (snd (snd (snd c))) \<noteq> number current \<and>
                    number (snd (snd (snd c))) \<in> pj_number ` S \<Longrightarrow>
   set recent_prs \<subseteq> S \<Longrightarrow>
   \<forall>c \<in> set out. number (snd (snd (snd c))) \<noteq> number current \<and>
                  number (snd (snd (snd c))) \<in> pj_number ` S"
proof (induction recent_prs arbitrary: cands)
  case Nil
  then show ?case by simp
next
  case (Cons pr recent_prs)
  from Cons.prems(3) have sub: "set recent_prs \<subseteq> S" and prS: "pr \<in> S"
    by simp_all
  show ?case
  proof (cases "pj_number pr = number current")
    case True
    with Cons.prems(1) have "collect w current recent_prs cands = Some (Inr out)"
      by simp
    then show ?thesis
      by (rule Cons.IH) (fact Cons.prems(2), fact sub)
  next
    case nself: False
    show ?thesis
    proof (cases "pj_state pr \<notin> set [''open'', ''closed'']")
      case True
      with nself Cons.prems(1) have "collect w current recent_prs cands = Some (Inr out)"
        by simp
      then show ?thesis
        by (rule Cons.IH) (fact Cons.prems(2), fact sub)
    next
      case st: False
      from collect_step_result [OF nself st Cons.prems(1)]
      obtain fs score file_overlap text_sim
        where fs: "get_pr_files w (pj_number pr) = Some (Inr fs)"
          and cs: "compute_similarity current (make_record pr fs) = Inr (score, file_overlap, text_sim)"
        by blast
      note step = collect_step [OF nself st fs cs, of recent_prs cands]
      show ?thesis
      proof (cases "gate (score, file_overlap, text_sim, make_record pr fs)")
        case True
        have new: "number (make_record pr fs) \<noteq> number current \<and>
                   number (make_record pr fs) \<in> pj_number ` S"
          using nself prS by (simp add: make_record_def)
        have "collect w current recent_prs
                (cands @ [(score, file_overlap, text_sim, make_record pr fs)]) = Some (Inr out)"
          using Cons.prems(1) True by (simp only: step if_True)
        moreover have "\<forall>c \<in> set (cands @ [(score, file_overlap, text_sim, make_record pr fs)]).
            number (snd (snd (snd c))) \<noteq> number current \<and> number (snd (snd (snd c))) \<in> pj_number ` S"
          using Cons.prems(2) new by simp
        ultimately show ?thesis
          by (rule Cons.IH) (fact sub)
      next
        case False
        have "collect w current recent_prs cands = Some (Inr out)"
          using Cons.prems(1) False by (simp only: step if_False)
        then show ?thesis
          by (rule Cons.IH) (fact Cons.prems(2), fact sub)
      qed
    qed
  qed
qed

text \<open>
  The entries with the current number play no part in the loop: line 129 passes over them
  before any file is fetched and before anything is scored.
\<close>

lemma collect_skips_current:
  "collect w current recent_prs cands =
   collect w current (filter (\<lambda>pr. pj_number pr \<noteq> number current) recent_prs) cands"
proof (induction recent_prs arbitrary: cands)
  case Nil
  show ?case by simp
next
  case (Cons pr recent_prs)
  show ?case
  proof (cases "pj_number pr = number current")
    case True
    then show ?thesis
      using Cons.IH [of cands] by simp
  next
    case nself: False
    show ?thesis
    proof (cases "pj_state pr \<notin> set [''open'', ''closed'']")
      case True
      with nself show ?thesis
        using Cons.IH [of cands] by simp
    next
      case st: False
      show ?thesis
      proof (cases "get_pr_files w (pj_number pr)")
        case None
        with nself st show ?thesis
          by (simp only: filter.simps collect.simps if_False if_True not_False_eq_True option.case)
      next
        case (Some x)
        show ?thesis
        proof (cases x)
          case (Inl e)
          with Some nself st show ?thesis
            by (simp only: filter.simps collect.simps if_False if_True not_False_eq_True
                  option.case sum.case)
        next
          case (Inr fs)
          obtain score file_overlap text_sim
            where cs: "compute_similarity current (make_record pr fs) = Inr (score, file_overlap, text_sim)"
            using compute_similarity_shape [of current "make_record pr fs"] by blast
          have keep: "filter (\<lambda>pr. pj_number pr \<noteq> number current) (pr # recent_prs) =
                      pr # filter (\<lambda>pr. pj_number pr \<noteq> number current) recent_prs"
            using nself by simp
          from Some Inr have fs: "get_pr_files w (pj_number pr) = Some (Inr fs)"
            by simp
          show ?thesis
            unfolding keep collect_step [OF nself st fs cs]
            using Cons.IH [of cands]
              Cons.IH [of "cands @ [(score, file_overlap, text_sim, make_record pr fs)]"]
            by simp
        qed
      qed
    qed
  qed
qed

text \<open>
  C7: the loop of \<open>main\<close> runs as if the entries with the current number were not in the
  listing, so none of them is fetched or scored; and every entry that it puts into
  \<open>candidates\<close> was built from a listed pull request whose number differs from the current
  one's.
\<close>

theorem collect_excludes_current:
  "collect w current recent_prs [] =
     collect w current (filter (\<lambda>pr. pj_number pr \<noteq> number current) recent_prs) [] \<and>
   (collect w current recent_prs [] = Some (Inr candidates) \<longrightarrow>
    (\<forall>(score, file_overlap, text_sim, cand) \<in> set candidates.
       number cand \<noteq> number current \<and> number cand \<in> pj_number ` set recent_prs))"
proof (intro conjI impI)
  show "collect w current recent_prs [] =
     collect w current (filter (\<lambda>pr. pj_number pr \<noteq> number current) recent_prs) []"
    by (rule collect_skips_current)
  assume "collect w current recent_prs [] = Some (Inr candidates)"
  from collect_numbers [OF this, of "set recent_prs"]
  show "\<forall>(score, file_overlap, text_sim, cand) \<in> set candidates.
       number cand \<noteq> number current \<and> number cand \<in> pj_number ` set recent_prs"
    by (simp add: split_beta)
qed

theorem collect_excludes_current_witness:
  "get_pr_files w_guarded (number (make_record pj_current [''a.py'', ''b.py''])) =
     Some (Inl RequestException) \<and>
   collect w_guarded (make_record pj_current [''a.py'', ''b.py'']) [pj_current, pj_other, pj_twin] [] =
     Some (Inr [(1, 1, 1, make_record pj_twin [''a.py'', ''b.py''])]) \<and>
   collect w_guarded (make_record pj_current [''a.py'', ''b.py'']) [pj_other, pj_twin] [] =
     Some (Inr [(1, 1, 1, make_record pj_twin [''a.py'', ''b.py''])]) \<and>
   number (make_record pj_twin [''a.py'', ''b.py'']) \<noteq> number (make_record pj_current [''a.py'', ''b.py''])"
proof -
  have a: "collect w_guarded (make_record pj_current [''a.py'', ''b.py'']) [pj_current, pj_other, pj_twin] [] =
     Some (Inr [(1, 1, 1, make_record pj_twin [''a.py'', ''b.py''])])"
    by code_simp
  have b: "get_pr_files w_guarded (number (make_record pj_current [''a.py'', ''b.py''])) =
     Some (Inl RequestException)"
    by code_simp
  have c: "filter (\<lambda>pr. pj_number pr \<noteq> number (make_record pj_current [''a.py'', ''b.py'']))
             [pj_current, pj_other, pj_twin] = [pj_other, pj_twin]"
    by (simp add: make_record_def pj_current_def pj_other_def pj_twin_def)
  note t = collect_excludes_current [of w_guarded "make_record pj_current [''a.py'', ''b.py'']"
      "[pj_current, pj_other, pj_twin]" "[(1, 1, 1, make_record pj_twin [''a.py'', ''b.py''])]"]
  have d: "collect w_guarded (make_record pj_current [''a.py'', ''b.py'']) [pj_other, pj_twin] [] =
     Some (Inr [(1, 1, 1, make_record pj_twin [''a.py'', ''b.py''])])"
    using t [THEN conjunct1] unfolding c a by (rule sym)
  have e: "number (make_record pj_twin [''a.py'', ''b.py'']) \<noteq>
           number (make_record pj_current [''a.py'', ''b.py''])"
    by (simp add: make_record_def pj_current_def pj_twin_def)
  from a b d e show ?thesis by (intro conjI)
qed

text \<open>
  C6: when the loop ends with no candidate, the run prints that no similar pull request was
  found and ends there; nothing is posted.
\<close>

theorem no_candidates_no_notification:
  "gh_pull w (env_pr_number w) = Inr current_pr \<Longrightarrow>
   get_pr_files w (env_pr_number w) = Some (Inr current_files) \<Longrightarrow>
   get_recent_prs w = Some (Inr recent_prs) \<Longrightarrow>
   collect w (make_record current_pr current_files) recent_prs [] = Some (Inr []) \<Longrightarrow>
   main w = Some ([Print [Str ''No similar PRs found.'']], Inr ())"
  by (simp add: main_def)

theorem no_candidates_no_notification_witness:
  "gh_pull w_quiet (env_pr_number w_quiet) = Inr pj_current \<and>
   get_pr_files w_quiet (env_pr_number w_quiet) = Some (Inr [''a.py'', ''b.py'']) \<and>
   get_recent_prs w_quiet = Some (Inr [pj_current, pj_other]) \<and>
   collect w_quiet (make_record pj_current [''a.py'', ''b.py'']) [pj_current, pj_other] [] = Some (Inr []) \<and>
   main w_quiet = Some ([Print [Str ''No similar PRs found.'']], Inr ())"
proof -
  have a: "gh_pull w_quiet (env_pr_number w_quiet) = Inr pj_current"
    by (simp add: w_quiet_def w_sorted_def)
  have b: "get_pr_files w_quiet (env_pr_number w_quiet) = Some (Inr [''a.py'', ''b.py''])"
    by code_simp
  have c: "get_recent_prs w_quiet = Some (Inr [pj_current, pj_other])"
    by code_simp
  have d: "collect w_quiet (make_record pj_current [''a.py'', ''b.py'']) [pj_current, pj_other] [] = Some (Inr [])"
    by code_simp
  from no_candidates_no_notification [OF a b c d] a b c d show ?thesis by simp
qed

section \<open>Properties of the notification\<close>

text \<open>
  C8, as the code has it: without a webhook the post is skipped with a message; an answer of
  any status code is printed and the call ends normally; an exception of \<open>requests.post\<close> is
  not caught and comes out of \<open>notify_slack\<close>.
\<close>

theorem notify_slack_outcomes:
  "(env_slack_webhook w = None \<or> env_slack_webhook w = Some [] \<longrightarrow>
      notify_slack w message =
        ([Print [Str ''SLACK_WEBHOOK_URL not set, skipping Slack notification'']], Inr ())) \<and>
   (env_slack_webhook w = Some hook \<and> hook \<noteq> [] \<and> slack_send w hook message = Inr (status_code, text)
      \<longrightarrow> notify_slack w message =
            ([Post hook message, Print [Str ''Slack response:'', Num status_code, Str (take 200 text)]],
             Inr ())) \<and>
   (env_slack_webhook w = Some hook \<and> hook \<noteq> [] \<and> slack_send w hook message = Inl e
      \<longrightarrow> notify_slack w message = ([Post hook message], Inl e))"
  by (auto simp: notify_slack_def)

theorem notify_slack_outcomes_witness:
  "notify_slack w_quiet [Str ''dup''] =
     ([Print [Str ''SLACK_WEBHOOK_URL not set, skipping Slack notification'']], Inr ()) \<and>
   notify_slack w_sorted [Str ''dup''] =
     ([Post ''https://hooks.example/T0'' [Str ''dup''],
       Print [Str ''Slack response:'', Num 500, Str ''down'']], Inr ()) \<and>
   notify_slack w_unreachable [Str ''dup''] =
     ([Post ''https://hooks.example/T0'' [Str ''dup'']], Inl RequestException)"
  using notify_slack_outcomes [of w_quiet "[Str ''dup'']"]
    notify_slack_outcomes [of w_sorted "[Str ''dup'']" "''https://hooks.example/T0''" 500 "''down''"]
    notify_slack_outcomes [of w_unreachable "[Str ''dup'']" "''https://hooks.example/T0''" _ _ RequestException]
  by (simp add: w_quiet_def w_sorted_def w_unreachable_def)

text \<open>
  C8 as stated fails: with an unreachable webhook the exception ends the run with an error,
  and no response is logged.
\<close>

theorem notify_slack_unreachable_counterexample:
  "main w_unreachable =
     Some ([Post ''https://hooks.example/T0''
              (join_lines (message_lines (make_record pj_current [''a.py'', ''b.py''])
                 [(1, 1, 1, make_record pj_twin [''a.py'', ''b.py''])]))],
           Inl RequestException)"
  by code_simp

end
